theory Spec2Isabelle
  imports Complex_Main "HOL-Library.Char_ord" "HOL-Library.List_Lexorder" "HOL-Library.Multiset"
begin

section \<open>EcoAtlas: bounding-box aggregation of EDGAR grids\<close>

text \<open>
  A shallow embedding of \<^verbatim>\<open>src/ecoatlas/scripts/edgar/aggregate_bbox.py\<close>.
  Python floats are modelled as real numbers (rounding, infinities and NaN bounds are
  outside the model); a missing cell (NaN) of a grid is \<open>None\<close>. Strings are HOL
  strings, read as ASCII text. Every \<^verbatim>\<open>raise\<close> of the script and every exception of a
  library call it makes is a value of the type \<open>error\<close>.
\<close>

subsection \<open>Errors\<close>

text \<open>
  The script raises \<^verbatim>\<open>ValueError\<close> at three places; the constructors name them as the
  specification does. \<open>LibraryError\<close> stands for an exception raised inside a library
  call (opening a file, label-based selection, \<^verbatim>\<open>max\<close> of an empty array,
  \<^verbatim>\<open>float\<close> of an array that is not a single value).
\<close>

datatype error = InvalidArgument | VariableNotFound | MissingYear | LibraryError

subsection \<open>Strings\<close>

text \<open>\<^verbatim>\<open>str.split(sep)\<close> with a one-character separator: empty pieces are kept.\<close>

fun split_on :: "char \<Rightarrow> string \<Rightarrow> string list" where
  "split_on sep [] = [[]]"
| "split_on sep (c # cs) =
     (if c = sep then [] # split_on sep cs
      else (case split_on sep cs of
              [] \<Rightarrow> [[c]]
            | t # ts \<Rightarrow> (c # t) # ts))"

text \<open>\<^verbatim>\<open>str.isdigit()\<close> on ASCII text: non-empty and made of the digits 0 to 9.\<close>

definition is_digit_char :: "char \<Rightarrow> bool" where
  "is_digit_char c = (CHR ''0'' \<le> c \<and> c \<le> CHR ''9'')"

definition isdigit :: "string \<Rightarrow> bool" where
  "isdigit s = (s \<noteq> [] \<and> list_all is_digit_char s)"

subsection \<open>parse\_bbox\<close>

text \<open>
  \<^verbatim>\<open>parts = [float(x) for x in value.split(",")]\<close>: Python's builtin \<^verbatim>\<open>float\<close> is a
  parameter \<open>pyfloat\<close> of the model (\<open>None\<close> where it raises \<^verbatim>\<open>ValueError\<close>). The
  comprehension converts the tokens from left to right and stops at the first one that
  is refused.
\<close>

fun float_all :: "(string \<Rightarrow> real option) \<Rightarrow> string list \<Rightarrow> error + real list" where
  "float_all pyfloat [] = Inr []"
| "float_all pyfloat (x # xs) =
     (case pyfloat x of
        None \<Rightarrow> Inl InvalidArgument
      | Some v \<Rightarrow> (case float_all pyfloat xs of
                    Inl e \<Rightarrow> Inl e
                  | Inr vs \<Rightarrow> Inr (v # vs)))"

definition parse_bbox :: "(string \<Rightarrow> real option) \<Rightarrow> string \<Rightarrow> error + real list" where
  "parse_bbox pyfloat val =
     (case float_all pyfloat (split_on CHR '','' val) of
        Inl e \<Rightarrow> Inl e
      | Inr parts \<Rightarrow> if length parts \<noteq> 4 then Inl InvalidArgument else Inr parts)"

text \<open>
  A concrete reading of \<^verbatim>\<open>float\<close> for worked examples: the plain decimal literals of
  its grammar, an optional minus sign, digits, and an optional fraction part.
\<close>

definition digit_val :: "char \<Rightarrow> nat" where
  "digit_val c = of_char c - of_char CHR ''0''"

definition digits_val :: "string \<Rightarrow> nat" where
  "digits_val s = foldl (\<lambda>a c. 10 * a + digit_val c) 0 s"

definition unsigned_literal :: "string \<Rightarrow> real option" where
  "unsigned_literal s =
     (case split_on CHR ''.'' s of
        [w] \<Rightarrow> if isdigit w then Some (real (digits_val w)) else None
      | [w, f] \<Rightarrow> if isdigit w \<and> isdigit f
                  then Some (real (digits_val w) + real (digits_val f) / 10 ^ length f)
                  else None
      | _ \<Rightarrow> None)"

definition decimal_literal :: "string \<Rightarrow> real option" where
  "decimal_literal s =
     (case s of
        [] \<Rightarrow> None
      | c # cs \<Rightarrow> if c = CHR ''-'' then map_option uminus (unsigned_literal cs)
                  else unsigned_literal s)"

subsection \<open>extract\_year\_from\_filename\<close>

text \<open>The loop over \<^verbatim>\<open>filename.split("_")\<close> returns at the first part that qualifies.\<close>

fun first_year :: "string list \<Rightarrow> string option" where
  "first_year [] = None"
| "first_year (part # parts) =
     (if isdigit part \<and> length part = 4 then Some part else first_year parts)"

definition extract_year_from_filename :: "string \<Rightarrow> string option" where
  "extract_year_from_filename filename = first_year (split_on CHR ''_'' filename)"

text \<open>
  \<^verbatim>\<open>Path(input_path).name\<close> for a POSIX path: the last component, where empty
  components and \<^verbatim>\<open>.\<close> are dropped, and the empty string when none is left.
\<close>

definition path_name :: "string \<Rightarrow> string" where
  "path_name p =
     (case filter (\<lambda>s. s \<noteq> [] \<and> s \<noteq> ''.'') (split_on CHR ''/'' p) of
        [] \<Rightarrow> []
      | c # cs \<Rightarrow> last (c # cs))"

subsection \<open>Grids\<close>

text \<open>
  A variable of a dataset has one-dimensional coordinates \<^verbatim>\<open>lon\<close> and \<^verbatim>\<open>lat\<close>
  (\<open>None\<close> when the coordinate is absent) and cell values over the dimensions
  (\<^verbatim>\<open>time\<close>, \<^verbatim>\<open>lat\<close>, \<^verbatim>\<open>lon\<close>) or (\<^verbatim>\<open>lat\<close>, \<^verbatim>\<open>lon\<close>). A plane gives the value at
  a latitude position and a longitude position; \<open>None\<close> is a missing value (NaN).
  A time stamp is a \<^verbatim>\<open>datetime64\<close> value that denotes a time (not NaT): its
  calendar year and the nanoseconds elapsed within that year.
\<close>

type_synonym plane = "nat \<Rightarrow> nat \<Rightarrow> real option"

datatype datetime64 = Datetime64 (dt_year: int) (dt_rest: nat)

datatype var_values = NoTime plane | WithTime "(datetime64 \<times> plane) list"

record data_array =
  lon_coord :: "real list option"
  lat_coord :: "real list option"
  var_values :: var_values

type_synonym dataset = "string \<Rightarrow> data_array option"

record bbox =
  lon_min :: real
  lat_min :: real
  lon_max :: real
  lat_max :: real

record series_point =
  date :: string
  val :: real

subsection \<open>Longitude normalisation (lines 43 to 47)\<close>

text \<open>Python's \<^verbatim>\<open>x % 360\<close> on floats takes the sign of the divisor.\<close>

definition mod_360 :: "real \<Rightarrow> real" where
  "mod_360 x = x - 360 * of_int \<lfloor>x / 360\<rfloor>"

text \<open>\<^verbatim>\<open>lon.max()\<close> raises on an array of size zero.\<close>

definition array_max :: "real list \<Rightarrow> error + real" where
  "array_max xs = (case xs of [] \<Rightarrow> Inl LibraryError | x # ys \<Rightarrow> Inr (fold max ys x))"

text \<open>The two assignments of lines 46 and 47.\<close>

definition remap_lon :: "bbox \<Rightarrow> bbox" where
  "remap_lon b = b\<lparr>lon_min := mod_360 (lon_min b), lon_max := mod_360 (lon_max b)\<rparr>"

definition normalize_lon :: "real list option \<Rightarrow> bbox \<Rightarrow> error + bbox" where
  "normalize_lon lon b =
     (case lon of
        None \<Rightarrow> Inr b
      | Some xs \<Rightarrow>
          (case array_max xs of
             Inl e \<Rightarrow> Inl e
           | Inr m \<Rightarrow> if m > 180 then Inr (remap_lon b) else Inr b))"

subsection \<open>Label-based selection and the sum (lines 49 and 50)\<close>

text \<open>
  \<^verbatim>\<open>data.sel(lon=slice(a, b))\<close> asks the coordinate's index for the positions of the
  two labels and keeps the positions from the first bound up to the second. On an
  increasing index the bounds are found by binary search (\<^verbatim>\<open>searchsorted\<close>, left for
  the start and right for the stop); on a decreasing index by the same search on the
  reversed index; on an index in no order both labels have to occur in it, each in one
  contiguous run.
\<close>

datatype side = SideLeft | SideRight

definition searchsorted :: "real list \<Rightarrow> real \<Rightarrow> side \<Rightarrow> nat" where
  "searchsorted xs v sd =
     (case sd of
        SideLeft \<Rightarrow> length (takeWhile (\<lambda>x. x < v) xs)
      | SideRight \<Rightarrow> length (takeWhile (\<lambda>x. x \<le> v) xs))"

definition get_loc :: "real list \<Rightarrow> real \<Rightarrow> nat list" where
  "get_loc xs v = filter (\<lambda>i. xs ! i = v) [0..<length xs]"

definition get_slice_bound :: "real list \<Rightarrow> real \<Rightarrow> side \<Rightarrow> error + nat" where
  "get_slice_bound xs v sd =
     (if sorted xs then Inr (searchsorted xs v sd)
      else if sorted (rev xs)
      then Inr (length xs - searchsorted (rev xs) v
                  (case sd of SideLeft \<Rightarrow> SideRight | SideRight \<Rightarrow> SideLeft))
      else (case get_loc xs v of
              [] \<Rightarrow> Inl LibraryError
            | p # ps \<Rightarrow>
                if p # ps = [p..<p + length (p # ps)]
                then Inr (case sd of SideLeft \<Rightarrow> p | SideRight \<Rightarrow> last (p # ps) + 1)
                else Inl LibraryError))"

definition slice_positions :: "real list \<Rightarrow> real \<Rightarrow> real \<Rightarrow> error + nat list" where
  "slice_positions xs lo hi =
     (case get_slice_bound xs lo SideLeft of
        Inl e \<Rightarrow> Inl e
      | Inr start \<Rightarrow>
          (case get_slice_bound xs hi SideRight of
             Inl e \<Rightarrow> Inl e
           | Inr stop \<Rightarrow> Inr [start..<stop]))"

text \<open>Selection needs an index on both dimensions; the result is the kept positions.\<close>

definition sel_box :: "data_array \<Rightarrow> bbox \<Rightarrow> error + (nat list \<times> nat list)" where
  "sel_box d b =
     (case lon_coord d of
        None \<Rightarrow> Inl LibraryError
      | Some lons \<Rightarrow>
          (case lat_coord d of
             None \<Rightarrow> Inl LibraryError
           | Some lats \<Rightarrow>
               (case slice_positions lons (lon_min b) (lon_max b) of
                  Inl e \<Rightarrow> Inl e
                | Inr js \<Rightarrow>
                    (case slice_positions lats (lat_min b) (lat_max b) of
                       Inl e \<Rightarrow> Inl e
                     | Inr is \<Rightarrow> Inr (is, js)))))"

definition nan_to_zero :: "real option \<Rightarrow> real" where
  "nan_to_zero c = (case c of None \<Rightarrow> 0 | Some v \<Rightarrow> v)"

text \<open>\<^verbatim>\<open>sum(dim=("lat", "lon"), skipna=True)\<close> over the kept positions of one plane.\<close>

definition sum_skipna :: "plane \<Rightarrow> nat list \<Rightarrow> nat list \<Rightarrow> real" where
  "sum_skipna p is js = sum_list (map (\<lambda>i. sum_list (map (\<lambda>j. nan_to_zero (p i j)) js)) is)"

datatype summed = Scalar real | OverTime "(datetime64 \<times> real) list"

definition spatial_sum :: "data_array \<Rightarrow> bbox \<Rightarrow> error + summed" where
  "spatial_sum d b =
     (case sel_box d b of
        Inl e \<Rightarrow> Inl e
      | Inr (is, js) \<Rightarrow>
          Inr (case var_values d of
                 NoTime p \<Rightarrow> Scalar (sum_skipna p is js)
               | WithTime tps \<Rightarrow> OverTime (map (\<lambda>tp. (fst tp, sum_skipna (snd tp) is js)) tps)))"

subsection \<open>Temporal labelling (lines 52 to 62)\<close>

text \<open>
  \<^verbatim>\<open>str(np.datetime64(time_value, "Y"))\<close> prints the year with the C format
  \<^verbatim>\<open>%04d\<close>; \<^verbatim>\<open>.split("-")[0]\<close> keeps what stands before the first hyphen.
\<close>

fun str_nat :: "nat \<Rightarrow> string" where
  "str_nat n =
     (if n < 10 then [''0123456789'' ! n]
      else str_nat (n div 10) @ [''0123456789'' ! (n mod 10)])"

declare str_nat.simps [simp del]

definition zero_pad :: "nat \<Rightarrow> string \<Rightarrow> string" where
  "zero_pad w s = replicate (w - length s) CHR ''0'' @ s"

definition str_year :: "int \<Rightarrow> string" where
  "str_year y =
     (if y < 0 then CHR ''-'' # zero_pad 3 (str_nat (nat (- y)))
      else zero_pad 4 (str_nat (nat y)))"

definition year_label :: "datetime64 \<Rightarrow> string" where
  "year_label t =
     (case split_on CHR ''-'' (str_year (dt_year t)) of
        [] \<Rightarrow> []
      | s # _ \<Rightarrow> s)"

text \<open>
  \<^verbatim>\<open>float(summed.sel(time=time_value).values)\<close>: the selection by label keeps every
  entry whose time equals the label, and \<^verbatim>\<open>float\<close> accepts a single value only.
\<close>

definition sel_time :: "(datetime64 \<times> real) list \<Rightarrow> datetime64 \<Rightarrow> error + real" where
  "sel_time tvs t =
     (case filter (\<lambda>tv. fst tv = t) tvs of
        [tv] \<Rightarrow> Inr (snd tv)
      | _ \<Rightarrow> Inl LibraryError)"

fun label_times ::
  "(datetime64 \<times> real) list \<Rightarrow> datetime64 list \<Rightarrow> series_point list
    \<Rightarrow> error + series_point list" where
  "label_times tvs [] series = Inr series"
| "label_times tvs (time_value # rest) series =
     (case sel_time tvs time_value of
        Inl e \<Rightarrow> Inl e
      | Inr v \<Rightarrow>
          label_times tvs rest (series @ [\<lparr>date = year_label time_value, val = v\<rparr>]))"

text \<open>The two branches on \<^verbatim>\<open>"time" in summed.coords\<close>.\<close>

definition label_summed ::
  "summed \<Rightarrow> series_point list \<Rightarrow> string \<Rightarrow> error + series_point list" where
  "label_summed sm series input_path =
     (case sm of
        OverTime tvs \<Rightarrow> label_times tvs (map fst tvs) series
      | Scalar v \<Rightarrow>
          (case extract_year_from_filename (path_name input_path) of
             None \<Rightarrow> Inl MissingYear
           | Some year \<Rightarrow> Inr (series @ [\<lparr>date = year, val = v\<rparr>])))"

subsection \<open>The loop over the input paths and main\<close>

text \<open>
  One pass of the loop body (lines 36 to 62). The working bounding box and the series
  are the variables the body assigns; they are passed in and returned.
\<close>

definition process_source ::
  "(string \<Rightarrow> dataset option) \<Rightarrow> string \<Rightarrow> bbox \<times> series_point list \<Rightarrow> string
    \<Rightarrow> error + (bbox \<times> series_point list)" where
  "process_source fs var st input_path =
     (case fs input_path of
        None \<Rightarrow> Inl LibraryError
      | Some dataset \<Rightarrow>
          (case dataset var of
             None \<Rightarrow> Inl VariableNotFound
           | Some data \<Rightarrow>
               (case normalize_lon (lon_coord data) (fst st) of
                  Inl e \<Rightarrow> Inl e
                | Inr b \<Rightarrow>
                    (case spatial_sum data b of
                       Inl e \<Rightarrow> Inl e
                     | Inr sm \<Rightarrow>
                         (case label_summed sm (snd st) input_path of
                            Inl e \<Rightarrow> Inl e
                          | Inr series \<Rightarrow> Inr (b, series))))))"

fun run_sources ::
  "(string \<Rightarrow> dataset option) \<Rightarrow> string \<Rightarrow> bbox \<times> series_point list \<Rightarrow> string list
    \<Rightarrow> error + (bbox \<times> series_point list)" where
  "run_sources fs var st [] = Inr st"
| "run_sources fs var st (input_path # input_paths) =
     (case process_source fs var st input_path of
        Inl e \<Rightarrow> Inl e
      | Inr st' \<Rightarrow> run_sources fs var st' input_paths)"

record args =
  arg_input :: string
  arg_bbox :: string
  arg_var :: string
  arg_output :: string

text \<open>
  The world of a run: the datasets that \<^verbatim>\<open>xr.open_dataset\<close> finds at each path, and
  the series written to each output path (the JSON text is the series itself).
\<close>

record world =
  datasets :: "string \<Rightarrow> dataset option"
  written :: "string \<Rightarrow> series_point list option"

definition main ::
  "(string \<Rightarrow> real option) \<Rightarrow> args \<Rightarrow> world \<Rightarrow> error option \<times> world" where
  "main pyfloat a w =
     (case parse_bbox pyfloat (arg_bbox a) of
        Inl e \<Rightarrow> (Some e, w)
      | Inr parts \<Rightarrow>
          (case parts of
             [lon_min0, lat_min0, lon_max0, lat_max0] \<Rightarrow>
               (case run_sources (datasets w) (arg_var a)
                       (\<lparr>lon_min = lon_min0, lat_min = lat_min0,
                          lon_max = lon_max0, lat_max = lat_max0\<rparr>, [])
                       (split_on CHR '','' (arg_input a)) of
                  Inl e \<Rightarrow> (Some e, w)
                | Inr st \<Rightarrow>
                    (None, w\<lparr>written := (written w)(arg_output a \<mapsto> sort_key date (snd st))\<rparr>))
           | _ \<Rightarrow> (Some InvalidArgument, w)))"

subsection \<open>The reduction in the words of the specification\<close>

text \<open>
  The specification describes the reduction by the labels: the cells whose longitude
  lies in \<open>[lon_min, lon_max]\<close> and whose latitude lies in \<open>[lat_min, lat_max]\<close>, both
  ends included, are summed, a missing value counting as zero.
\<close>

definition in_range :: "real list \<Rightarrow> real \<Rightarrow> real \<Rightarrow> nat list" where
  "in_range xs lo hi = filter (\<lambda>i. lo \<le> xs ! i \<and> xs ! i \<le> hi) [0..<length xs]"

definition box_total :: "real list \<Rightarrow> real list \<Rightarrow> bbox \<Rightarrow> plane \<Rightarrow> real" where
  "box_total lats lons b p =
     sum_list (map (\<lambda>i. sum_list (map (\<lambda>j. nan_to_zero (p i j))
                                     (in_range lons (lon_min b) (lon_max b))))
                   (in_range lats (lat_min b) (lat_max b)))"

subsection \<open>Example grids and runs\<close>

definition plane_of_rows :: "real option list list \<Rightarrow> plane" where
  "plane_of_rows rows i j =
     (if i < length rows \<and> j < length (rows ! i) then rows ! i ! j else None)"

definition single_var :: "string \<Rightarrow> data_array \<Rightarrow> dataset" where
  "single_var name d v = (if v = name then Some d else None)"

text \<open>A two by two grid with one missing cell.\<close>

definition grid_2x2 :: data_array where
  "grid_2x2 = \<lparr>lon_coord = Some [0, 1], lat_coord = Some [0, 1],
               var_values = NoTime (plane_of_rows [[Some 1, None], [Some 2, Some 3]])\<rparr>"

text \<open>A grid in the 0 to 360 convention and one in the -180 to 180 convention.\<close>

definition grid_0_360 :: data_array where
  "grid_0_360 = \<lparr>lon_coord = Some [0, 90, 180, 270], lat_coord = Some [0],
                 var_values = NoTime (plane_of_rows [[Some 1, Some 1, Some 1, Some 1]])\<rparr>"

definition grid_180 :: data_array where
  "grid_180 = \<lparr>lon_coord = Some [- 90, 0, 90], lat_coord = Some [0],
               var_values = NoTime (plane_of_rows [[Some 1, Some 1, Some 1]])\<rparr>"

text \<open>A grid whose latitudes run from north to south.\<close>

definition grid_north_south :: data_array where
  "grid_north_south = \<lparr>lon_coord = Some [0], lat_coord = Some [10, 0, - 10],
                       var_values = NoTime (plane_of_rows [[Some 1], [Some 1], [Some 1]])\<rparr>"

text \<open>A grid with a time axis of two years, and one whose time axis repeats a label.\<close>

definition grid_two_years :: data_array where
  "grid_two_years = \<lparr>lon_coord = Some [0, 1], lat_coord = Some [0],
     var_values = WithTime [(Datetime64 2019 0, plane_of_rows [[Some 2, Some 3]]),
                            (Datetime64 2020 0, plane_of_rows [[Some 7.5, None]])]\<rparr>"

definition grid_repeated_time :: data_array where
  "grid_repeated_time = \<lparr>lon_coord = Some [0, 1], lat_coord = Some [0],
     var_values = WithTime [(Datetime64 2019 0, plane_of_rows [[Some 2, Some 3]]),
                            (Datetime64 2019 0, plane_of_rows [[Some 7.5, None]])]\<rparr>"

definition example_files :: "string \<Rightarrow> dataset option" where
  "example_files p =
     (if p = ''in/data_emissions_2021_v2.nc'' then Some (single_var ''emi'' grid_2x2)
      else if p = ''in/data_v2.nc'' then Some (single_var ''emi'' grid_2x2)
      else if p = ''in/edgar_2019_a.nc'' then Some (single_var ''emi'' grid_2x2)
      else if p = ''in/wide_2020_a.nc'' then Some (single_var ''emi'' grid_0_360)
      else if p = ''in/west_2021_a.nc'' then Some (single_var ''emi'' grid_180)
      else if p = ''in/north_2018_a.nc'' then Some (single_var ''emi'' grid_north_south)
      else if p = ''in/years.nc'' then Some (single_var ''emi'' grid_two_years)
      else if p = ''in/repeated.nc'' then Some (single_var ''emi'' grid_repeated_time)
      else if p = ''in/other_2022_a.nc'' then Some (single_var ''ch4'' grid_2x2)
      else None)"

definition example_world :: world where
  "example_world = \<lparr>datasets = example_files, written = (\<lambda>p. None)\<rparr>"

definition example_box :: bbox where
  "example_box = \<lparr>lon_min = - 10, lat_min = 0, lon_max = 10, lat_max = 0\<rparr>"

definition unit_box :: bbox where
  "unit_box = \<lparr>lon_min = 0, lat_min = 0, lon_max = 1, lat_max = 1\<rparr>"

definition tropics_box :: bbox where
  "tropics_box = \<lparr>lon_min = - 1, lat_min = - 5, lon_max = 1, lat_max = 5\<rparr>"

text \<open>Command lines: two sources to merge, a source without the variable after a
  good one, and a source without the variable after one whose name has no year.\<close>

definition merge_args :: args where
  "merge_args = \<lparr>arg_input = ''in/data_emissions_2021_v2.nc,in/edgar_2019_a.nc'',
                  arg_bbox = ''0,0,1,1'', arg_var = ''emi'', arg_output = ''out/series.json''\<rparr>"

definition absent_var_args :: args where
  "absent_var_args =
     \<lparr>arg_input = ''in/data_emissions_2021_v2.nc,in/other_2022_a.nc,in/edgar_2019_a.nc'',
      arg_bbox = ''0,0,1,1'', arg_var = ''emi'', arg_output = ''out/series.json''\<rparr>"

definition no_year_first_args :: args where
  "no_year_first_args = \<lparr>arg_input = ''in/data_v2.nc,in/other_2022_a.nc'',
                          arg_bbox = ''0,0,1,1'', arg_var = ''emi'', arg_output = ''out/series.json''\<rparr>"

definition wide_west_args :: args where
  "wide_west_args = \<lparr>arg_input = ''in/wide_2020_a.nc,in/west_2021_a.nc'',
                      arg_bbox = ''-10,0,10,0'', arg_var = ''emi'', arg_output = ''out/series.json''\<rparr>"

section \<open>Properties\<close>

subsection \<open>Splitting and parsing\<close>

lemma float_all_spec:
  "float_all f ts =
     (if \<forall>t \<in> set ts. f t \<noteq> None then Inr (map (\<lambda>t. the (f t)) ts)
      else Inl InvalidArgument)"
  by (induction ts) (auto split: option.splits sum.splits)

lemma split_on_nonempty: "split_on sep s \<noteq> []"
  by (induction s) (auto split: list.splits)

lemma split_on_no_sep: "sep \<notin> set t \<Longrightarrow> split_on sep t = [t]"
  by (induction t) auto

lemma split_on_append:
  "sep \<notin> set t \<Longrightarrow> split_on sep (t @ sep # rest) = t # split_on sep rest"
  by (induction t) (auto split: list.splits)

text \<open>
  C6. \<open>parse_bbox\<close> succeeds exactly when the string splits at its commas into four
  tokens that \<^verbatim>\<open>float\<close> accepts, and then returns their values in the order of the
  tokens; in every other case it fails with \<open>InvalidArgument\<close>. Nothing else is
  checked: four tokens without a comma inside that \<^verbatim>\<open>float\<close> accepts give their four
  values, whatever these are.
\<close>

theorem parse_bbox_spec:
  "parse_bbox pyfloat s =
     (if length (split_on CHR '','' s) = 4
         \<and> (\<forall>t \<in> set (split_on CHR '','' s). pyfloat t \<noteq> None)
      then Inr (map (\<lambda>t. the (pyfloat t)) (split_on CHR '','' s))
      else Inl InvalidArgument)
   \<and> (CHR '','' \<notin> set t1 \<and> CHR '','' \<notin> set t2 \<and> CHR '','' \<notin> set t3 \<and> CHR '','' \<notin> set t4
        \<and> pyfloat t1 = Some v1 \<and> pyfloat t2 = Some v2
        \<and> pyfloat t3 = Some v3 \<and> pyfloat t4 = Some v4
      \<longrightarrow> parse_bbox pyfloat (t1 @ '','' @ t2 @ '','' @ t3 @ '','' @ t4) = Inr [v1, v2, v3, v4])"
proof -
  have general: "parse_bbox pyfloat s =
     (if length (split_on CHR '','' s) = 4
         \<and> (\<forall>t \<in> set (split_on CHR '','' s). pyfloat t \<noteq> None)
      then Inr (map (\<lambda>t. the (pyfloat t)) (split_on CHR '','' s))
      else Inl InvalidArgument)" for s
    by (simp add: parse_bbox_def float_all_spec)
  have four: "parse_bbox pyfloat (t1 @ '','' @ t2 @ '','' @ t3 @ '','' @ t4) = Inr [v1, v2, v3, v4]"
    if "CHR '','' \<notin> set t1" "CHR '','' \<notin> set t2" "CHR '','' \<notin> set t3" "CHR '','' \<notin> set t4"
      and "pyfloat t1 = Some v1" "pyfloat t2 = Some v2" "pyfloat t3 = Some v3" "pyfloat t4 = Some v4"
  proof -
    have "split_on CHR '','' (t1 @ '','' @ t2 @ '','' @ t3 @ '','' @ t4) = [t1, t2, t3, t4]"
      using that by (simp add: split_on_append split_on_no_sep)
    then show ?thesis
      using that by (simp add: general)
  qed
  show ?thesis
    using general [of s] four by blast
qed

theorem parse_bbox_spec_witness:
  "parse_bbox decimal_literal ''10,5,-10.5,-5'' = Inr [10, 5, - 10.5, - 5]
   \<and> parse_bbox decimal_literal ''1,2,3'' = Inl InvalidArgument
   \<and> parse_bbox decimal_literal ''1,2,3,4,5'' = Inl InvalidArgument
   \<and> parse_bbox decimal_literal ''1,2,x,4'' = Inl InvalidArgument"
  using parse_bbox_spec [of decimal_literal "''10,5,-10.5,-5''"
      "''10''" "''5''" "''-10.5''" "''-5''" 10 5 "- 10.5" "- 5"]
  by (simp add: parse_bbox_def decimal_literal_def unsigned_literal_def isdigit_def
      is_digit_char_def digits_val_def digit_val_def)


subsection \<open>Normalisation and the working bounding box\<close>

lemma mod_360_range: "0 \<le> mod_360 x \<and> mod_360 x < 360"
proof -
  have "of_int \<lfloor>x / 360\<rfloor> \<le> x / 360" "x / 360 < of_int \<lfloor>x / 360\<rfloor> + 1"
    by linarith+
  then show ?thesis
    unfolding mod_360_def by (simp add: field_simps)
qed

lemma mod_360_fixed: "0 \<le> x \<Longrightarrow> x < 360 \<Longrightarrow> mod_360 x = x"
proof -
  assume "0 \<le> x" "x < 360"
  then have "\<lfloor>x / 360\<rfloor> = 0"
    by (simp add: floor_eq_iff)
  then show ?thesis by (simp add: mod_360_def)
qed

lemma mod_360_idem: "mod_360 (mod_360 x) = mod_360 x"
  using mod_360_range [of x] by (simp add: mod_360_fixed)


lemma array_max_Max: "xs \<noteq> [] \<Longrightarrow> array_max xs = Inr (Max (set xs))"
proof (cases xs)
  case Nil
  assume "xs \<noteq> []"
  with Nil show ?thesis by simp
next
  case (Cons x ys)
  have "Max (set (x # ys)) = fold max ys x"
    by (rule Max.set_eq_fold)
  with Cons show ?thesis
    by (simp add: array_max_def)
qed

lemma normalize_lon_wide:
  "xs \<noteq> [] \<Longrightarrow> 180 < Max (set xs) \<Longrightarrow> normalize_lon (Some xs) b = Inr (remap_lon b)"
  by (simp add: normalize_lon_def array_max_Max)

lemma normalize_lon_narrow:
  "xs \<noteq> [] \<Longrightarrow> Max (set xs) \<le> 180 \<Longrightarrow> normalize_lon (Some xs) b = Inr b"
proof -
  assume "xs \<noteq> []" and le: "Max (set xs) \<le> 180"
  then have "array_max xs = Inr (Max (set xs))"
    by (simp add: array_max_Max)
  moreover from le have "\<not> 180 < Max (set xs)"
    by linarith
  ultimately show ?thesis
    by (simp add: normalize_lon_def)
qed

lemma remap_lon_idem: "remap_lon (remap_lon b) = remap_lon b"
  by (simp add: remap_lon_def mod_360_idem)

lemma normalize_lon_cases:
  "normalize_lon lon b = Inr b' \<Longrightarrow> b' = b \<or> b' = remap_lon b"
  by (auto simp: normalize_lon_def split: option.splits sum.splits if_splits)

lemma process_source_unfold:
  "fs p = Some ds \<Longrightarrow> ds var = Some data \<Longrightarrow> normalize_lon (lon_coord data) b = Inr b' \<Longrightarrow>
   process_source fs var (b, s) p =
     (case spatial_sum data b' of
        Inl e \<Rightarrow> Inl e
      | Inr sm \<Rightarrow> (case label_summed sm s p of Inl e \<Rightarrow> Inl e | Inr s' \<Rightarrow> Inr (b', s')))"
  by (simp add: process_source_def split: sum.splits)

lemma process_source_normalize:
  "process_source fs var (b, s) p = Inr (b', s') \<Longrightarrow>
   \<exists>ds data sm. fs p = Some ds \<and> ds var = Some data \<and> normalize_lon (lon_coord data) b = Inr b'
      \<and> spatial_sum data b' = Inr sm \<and> label_summed sm s p = Inr s'"
  by (auto simp: process_source_def split: option.splits sum.splits)

lemma run_sources_bbox:
  "run_sources fs var (b, s) ps = Inr (b', s') \<Longrightarrow> b' = b \<or> b' = remap_lon b"
proof (induction ps arbitrary: b s)
  case Nil
  then show ?case by simp
next
  case (Cons p ps)
  then obtain b1 s1 where step: "process_source fs var (b, s) p = Inr (b1, s1)"
    and rest: "run_sources fs var (b1, s1) ps = Inr (b', s')"
    by (auto split: sum.splits)
  from step have "b1 = b \<or> b1 = remap_lon b"
    by (auto dest!: process_source_normalize normalize_lon_cases)
  moreover from Cons.IH [OF rest] have "b' = b1 \<or> b' = remap_lon b1" .
  ultimately show ?case
    by (auto simp: remap_lon_idem)
qed

lemma run_sources_append:
  "run_sources fs var st (ps @ qs) =
     (case run_sources fs var st ps of Inl e \<Rightarrow> Inl e | Inr st' \<Rightarrow> run_sources fs var st' qs)"
  by (induction ps arbitrary: st) (auto split: sum.splits)



lemma main_parsed:
  "parse_bbox pyfloat (arg_bbox a) = Inr [x1, x2, x3, x4] \<Longrightarrow>
   main pyfloat a w =
     (case run_sources (datasets w) (arg_var a)
             (\<lparr>lon_min = x1, lat_min = x2, lon_max = x3, lat_max = x4\<rparr>, [])
             (split_on CHR '','' (arg_input a)) of
        Inl e \<Rightarrow> (Some e, w)
      | Inr st \<Rightarrow> (None, w\<lparr>written := (written w)(arg_output a \<mapsto> sort_key date (snd st))\<rparr>))"
  by (simp add: main_def)

text \<open>
  C9. The latitude bounds are never modified. Normalisation keeps \<open>lat_min\<close> and
  \<open>lat_max\<close>; after any number of sources the working box differs from the initial one
  in \<open>lon_min\<close> and \<open>lon_max\<close> at most; and when the initial box is the parsed one, the
  latitude bounds are still the second and the fourth parsed value.
\<close>

theorem lat_bounds_unchanged:
  "(normalize_lon lon b = Inr b1 \<longrightarrow>
      lat_min b1 = lat_min b \<and> lat_max b1 = lat_max b)
   \<and> (run_sources fs var (b, s) ps = Inr (b', s') \<longrightarrow>
        lat_min b' = lat_min b \<and> lat_max b' = lat_max b
        \<and> b' = b\<lparr>lon_min := lon_min b', lon_max := lon_max b'\<rparr>)
   \<and> (parse_bbox pyfloat (arg_bbox a) = Inr [x1, x2, x3, x4]
        \<and> run_sources (datasets w) (arg_var a)
             (\<lparr>lon_min = x1, lat_min = x2, lon_max = x3, lat_max = x4\<rparr>, []) qs = Inr (b2, s2)
      \<longrightarrow> lat_min b2 = x2 \<and> lat_max b2 = x4)"
proof -
  have step: "lat_min c' = lat_min c \<and> lat_max c' = lat_max c
      \<and> c' = c\<lparr>lon_min := lon_min c', lon_max := lon_max c'\<rparr>"
    if "c' = c \<or> c' = remap_lon c" for c c' :: bbox
    using that by (auto simp: remap_lon_def)
  have one: "lat_min b1 = lat_min b \<and> lat_max b1 = lat_max b"
    if "normalize_lon lon b = Inr b1"
    using step [OF normalize_lon_cases [OF that]] by simp
  have many: "lat_min c' = lat_min c \<and> lat_max c' = lat_max c
      \<and> c' = c\<lparr>lon_min := lon_min c', lon_max := lon_max c'\<rparr>"
    if "run_sources gs v (c, t) rs = Inr (c', t')" for gs v c t rs c' t'
    using step [OF run_sources_bbox [OF that]] .
  have parsed: "lat_min b2 = x2 \<and> lat_max b2 = x4"
    if "run_sources (datasets w) (arg_var a)
          (\<lparr>lon_min = x1, lat_min = x2, lon_max = x3, lat_max = x4\<rparr>, []) qs = Inr (b2, s2)"
    using many [OF that] by simp
  show ?thesis
    using one many [of fs var b s ps b' s'] parsed by blast
qed

theorem lat_bounds_unchanged_witness:
  "run_sources example_files ''emi'' (example_box, [])
      [''in/wide_2020_a.nc'', ''in/west_2021_a.nc'']
     = Inr (\<lparr>lon_min = 350, lat_min = 0, lon_max = 10, lat_max = 0\<rparr>,
            [\<lparr>date = ''2020'', val = 0\<rparr>, \<lparr>date = ''2021'', val = 0\<rparr>])
   \<and> lat_min example_box = 0 \<and> lat_max example_box = 0
   \<and> parse_bbox decimal_literal ''-10,0,10,0'' = Inr [- 10, 0, 10, 0]"
proof -
  have run: "run_sources example_files ''emi'' (example_box, [])
      [''in/wide_2020_a.nc'', ''in/west_2021_a.nc'']
     = Inr (\<lparr>lon_min = 350, lat_min = 0, lon_max = 10, lat_max = 0\<rparr>,
            [\<lparr>date = ''2020'', val = 0\<rparr>, \<lparr>date = ''2021'', val = 0\<rparr>])"
    by code_simp
  have parsed: "parse_bbox decimal_literal (arg_bbox wide_west_args) = Inr [- 10, 0, 10, 0]"
    by code_simp
  have world: "datasets example_world = example_files" "arg_var wide_west_args = ''emi''"
    "arg_bbox wide_west_args = ''-10,0,10,0''"
    by (simp_all add: example_world_def wide_west_args_def)
  have run': "run_sources (datasets example_world) (arg_var wide_west_args)
      (\<lparr>lon_min = - 10, lat_min = 0, lon_max = 10, lat_max = 0\<rparr>, [])
      [''in/wide_2020_a.nc'', ''in/west_2021_a.nc'']
     = Inr (\<lparr>lon_min = 350, lat_min = 0, lon_max = 10, lat_max = 0\<rparr>,
            [\<lparr>date = ''2020'', val = 0\<rparr>, \<lparr>date = ''2021'', val = 0\<rparr>])"
    by code_simp
  have none: "normalize_lon None example_box = Inr example_box"
    by (simp add: normalize_lon_def)
  from lat_bounds_unchanged [of None example_box example_box example_files "''emi''" "[]"
        "[''in/wide_2020_a.nc'', ''in/west_2021_a.nc'']"
        "\<lparr>lon_min = 350, lat_min = 0, lon_max = 10, lat_max = 0\<rparr>"
        "[\<lparr>date = ''2020'', val = 0\<rparr>, \<lparr>date = ''2021'', val = 0\<rparr>]"
        decimal_literal wide_west_args "- 10" 0 10 0 example_world
        "[''in/wide_2020_a.nc'', ''in/west_2021_a.nc'']"
        "\<lparr>lon_min = 350, lat_min = 0, lon_max = 10, lat_max = 0\<rparr>"
        "[\<lparr>date = ''2020'', val = 0\<rparr>, \<lparr>date = ''2021'', val = 0\<rparr>]"]
    none run run' parsed
  have "lat_min \<lparr>lon_min = 350, lat_min = 0, lon_max = 10, lat_max = (0::real)\<rparr> = lat_min example_box
     \<and> lat_max \<lparr>lon_min = 350, lat_min = 0, lon_max = 10, lat_max = (0::real)\<rparr> = lat_max example_box
     \<and> lat_min \<lparr>lon_min = 350, lat_min = 0, lon_max = 10, lat_max = (0::real)\<rparr> = 0
     \<and> lat_max \<lparr>lon_min = 350, lat_min = 0, lon_max = 10, lat_max = (0::real)\<rparr> = 0"
    by blast
  then show ?thesis
    using run parsed by (simp add: world)
qed





text \<open>
  C2. The normalised bounds persist across the loop. A source is processed from the
  state that the sources before it have left. In particular, when the grid of a first
  source has a longitude maximum above 180 and the grid of the second has not, the
  second source is sliced with the bounds remapped modulo 360 for the first.
\<close>

theorem bounds_carry_over:
  "run_sources fs var st (qs @ q # rest) =
     (case run_sources fs var st qs of
        Inl e \<Rightarrow> Inl e
      | Inr st' \<Rightarrow> (case process_source fs var st' q of
                      Inl e \<Rightarrow> Inl e
                    | Inr st'' \<Rightarrow> run_sources fs var st'' rest))
   \<and> (fs p1 = Some ds1 \<and> ds1 var = Some d1 \<and> lon_coord d1 = Some xs1
        \<and> xs1 \<noteq> [] \<and> 180 < Max (set xs1)
        \<and> process_source fs var (b, s) p1 = Inr (b1, s1)
        \<and> fs p2 = Some ds2 \<and> ds2 var = Some d2 \<and> lon_coord d2 = Some xs2
        \<and> xs2 \<noteq> [] \<and> Max (set xs2) \<le> 180
      \<longrightarrow> b1 = b\<lparr>lon_min := mod_360 (lon_min b), lon_max := mod_360 (lon_max b)\<rparr>
          \<and> run_sources fs var (b, s) (p1 # p2 # ps) =
              (case spatial_sum d2 b1 of
                 Inl e \<Rightarrow> Inl e
               | Inr sm \<Rightarrow> (case label_summed sm s1 p2 of
                              Inl e \<Rightarrow> Inl e
                            | Inr s2 \<Rightarrow> run_sources fs var (b1, s2) ps)))"
proof -
  have general: "run_sources fs var st (qs @ q # rest) =
     (case run_sources fs var st qs of
        Inl e \<Rightarrow> Inl e
      | Inr st' \<Rightarrow> (case process_source fs var st' q of
                      Inl e \<Rightarrow> Inl e
                    | Inr st'' \<Rightarrow> run_sources fs var st'' rest))"
    by (simp add: run_sources_append split: sum.splits)
  have two: "b1 = b\<lparr>lon_min := mod_360 (lon_min b), lon_max := mod_360 (lon_max b)\<rparr>
          \<and> run_sources fs var (b, s) (p1 # p2 # ps) =
              (case spatial_sum d2 b1 of
                 Inl e \<Rightarrow> Inl e
               | Inr sm \<Rightarrow> (case label_summed sm s1 p2 of
                              Inl e \<Rightarrow> Inl e
                            | Inr s2 \<Rightarrow> run_sources fs var (b1, s2) ps))"
    if src1: "fs p1 = Some ds1" "ds1 var = Some d1" "lon_coord d1 = Some xs1"
        "xs1 \<noteq> []" "180 < Max (set xs1)"
      and step: "process_source fs var (b, s) p1 = Inr (b1, s1)"
      and src2: "fs p2 = Some ds2" "ds2 var = Some d2" "lon_coord d2 = Some xs2"
        "xs2 \<noteq> []" "Max (set xs2) \<le> 180"
  proof -
    from process_source_normalize [OF step] src1
    have b1: "b1 = remap_lon b"
      by (auto simp: normalize_lon_wide)
    have "normalize_lon (lon_coord d2) b1 = Inr b1"
      using src2 by (simp add: normalize_lon_narrow)
    from process_source_unfold [of fs p2 ds2 var d2 b1 b1 s1, OF src2(1,2) this]
    have "process_source fs var (b1, s1) p2 =
        (case spatial_sum d2 b1 of
           Inl e \<Rightarrow> Inl e
         | Inr sm \<Rightarrow> (case label_summed sm s1 p2 of Inl e \<Rightarrow> Inl e | Inr s' \<Rightarrow> Inr (b1, s')))" .
    then have "run_sources fs var (b, s) (p1 # p2 # ps) =
              (case spatial_sum d2 b1 of
                 Inl e \<Rightarrow> Inl e
               | Inr sm \<Rightarrow> (case label_summed sm s1 p2 of
                              Inl e \<Rightarrow> Inl e
                            | Inr s2 \<Rightarrow> run_sources fs var (b1, s2) ps))"
      using step by (simp split: sum.splits)
    with b1 show ?thesis
      by (simp add: remap_lon_def)
  qed
  show ?thesis
    using general two by blast
qed

theorem bounds_carry_over_witness:
  "run_sources example_files ''emi'' (example_box, [])
      [''in/wide_2020_a.nc'', ''in/west_2021_a.nc'']
     = Inr (\<lparr>lon_min = 350, lat_min = 0, lon_max = 10, lat_max = 0\<rparr>,
            [\<lparr>date = ''2020'', val = 0\<rparr>, \<lparr>date = ''2021'', val = 0\<rparr>])
   \<and> spatial_sum grid_180 \<lparr>lon_min = 350, lat_min = 0, lon_max = 10, lat_max = 0\<rparr> = Inr (Scalar 0)
   \<and> spatial_sum grid_180 example_box = Inr (Scalar 1)
   \<and> run_sources example_files ''emi'' (example_box, []) [''in/west_2021_a.nc'']
     = Inr (example_box, [\<lparr>date = ''2021'', val = 1\<rparr>])"
proof -
  have src1: "example_files ''in/wide_2020_a.nc'' = Some (single_var ''emi'' grid_0_360)"
    "single_var ''emi'' grid_0_360 ''emi'' = Some grid_0_360"
    "lon_coord grid_0_360 = Some [0, 90, 180, 270]"
    "[0, 90, 180, 270] \<noteq> ([] :: real list)" "180 < Max (set [0, 90, 180, 270 :: real])"
    by (simp_all add: example_files_def single_var_def grid_0_360_def)
  have src2: "example_files ''in/west_2021_a.nc'' = Some (single_var ''emi'' grid_180)"
    "single_var ''emi'' grid_180 ''emi'' = Some grid_180"
    "lon_coord grid_180 = Some [- 90, 0, 90]"
    "[- 90, 0, 90] \<noteq> ([] :: real list)" "Max (set [- 90, 0, 90 :: real]) \<le> 180"
    by (simp_all add: example_files_def single_var_def grid_180_def)
  have step: "process_source example_files ''emi'' (example_box, []) ''in/wide_2020_a.nc''
     = Inr (\<lparr>lon_min = 350, lat_min = 0, lon_max = 10, lat_max = 0\<rparr>, [\<lparr>date = ''2020'', val = 0\<rparr>])"
    by code_simp
  have sums: "spatial_sum grid_180 \<lparr>lon_min = 350, lat_min = 0, lon_max = 10, lat_max = 0\<rparr> = Inr (Scalar 0)"
    "spatial_sum grid_180 example_box = Inr (Scalar 1)"
    by code_simp+
  have lab: "label_summed (Scalar 0) [\<lparr>date = ''2020'', val = 0\<rparr>] ''in/west_2021_a.nc''
     = Inr [\<lparr>date = ''2020'', val = 0\<rparr>, \<lparr>date = ''2021'', val = 0\<rparr>]"
    by code_simp
  have alone: "run_sources example_files ''emi'' (example_box, []) [''in/west_2021_a.nc'']
     = Inr (example_box, [\<lparr>date = ''2021'', val = 1\<rparr>])"
    by code_simp
  from bounds_carry_over [of example_files "''emi''" "(example_box, [])" "[]" "''in/wide_2020_a.nc''" "[]"
        "''in/wide_2020_a.nc''" "single_var ''emi'' grid_0_360" grid_0_360 "[0, 90, 180, 270]"
        example_box "[]" "\<lparr>lon_min = 350, lat_min = 0, lon_max = 10, lat_max = 0\<rparr>"
        "[\<lparr>date = ''2020'', val = 0\<rparr>]"
        "''in/west_2021_a.nc''" "single_var ''emi'' grid_180" grid_180 "[- 90, 0, 90]" "[]"]
  have "run_sources example_files ''emi'' (example_box, [])
          [''in/wide_2020_a.nc'', ''in/west_2021_a.nc''] =
        (case spatial_sum grid_180 \<lparr>lon_min = 350, lat_min = 0, lon_max = 10, lat_max = 0\<rparr> of
           Inl e \<Rightarrow> Inl e
         | Inr sm \<Rightarrow> (case label_summed sm [\<lparr>date = ''2020'', val = 0\<rparr>] ''in/west_2021_a.nc'' of
                        Inl e \<Rightarrow> Inl e
                      | Inr s2 \<Rightarrow> run_sources example_files ''emi''
                           (\<lparr>lon_min = 350, lat_min = 0, lon_max = 10, lat_max = 0\<rparr>, s2) []))"
    using src1 src2 step by blast
  then show ?thesis
    using sums alone by (simp add: lab)
qed

subsection \<open>The spatial reduction\<close>

lemma takeWhile_sorted_iff:
  assumes "sorted xs" and down: "\<And>x y. x \<le> y \<Longrightarrow> P y \<Longrightarrow> P x" and "i < length xs"
  shows "i < length (takeWhile P xs) \<longleftrightarrow> P (xs ! i)"
  using assms(1,3)
proof (induction xs arbitrary: i)
  case Nil
  then show ?case by simp
next
  case (Cons x xs)
  show ?case
  proof (cases i)
    case 0
    then show ?thesis by simp
  next
    case (Suc j)
    show ?thesis
    proof (cases "P x")
      case True
      with Cons Suc show ?thesis by simp
    next
      case False
      from Cons.prems Suc have "x \<le> xs ! j" by simp
      with False down have "\<not> P (xs ! j)" by blast
      with False Suc show ?thesis by simp
    qed
  qed
qed

lemma in_range_set:
  "set (in_range xs lo hi) = {i. i < length xs \<and> lo \<le> xs ! i \<and> xs ! i \<le> hi}"
  by (auto simp: in_range_def)

lemma in_range_sorted_distinct: "sorted (in_range xs lo hi) \<and> distinct (in_range xs lo hi)"
  by (simp add: in_range_def sorted_wrt_filter)

lemma searchsorted_slice:
  assumes "sorted xs"
  shows "[searchsorted xs lo SideLeft..<searchsorted xs hi SideRight] = in_range xs lo hi"
proof (rule sorted_distinct_set_unique)
  let ?a = "searchsorted xs lo SideLeft" and ?b = "searchsorted xs hi SideRight"
  have left: "i < ?a \<longleftrightarrow> xs ! i < lo" if "i < length xs" for i
    unfolding searchsorted_def using takeWhile_sorted_iff [OF assms _ that, of "\<lambda>x. x < lo"]
    by simp
  have right: "i < ?b \<longleftrightarrow> xs ! i \<le> hi" if "i < length xs" for i
    unfolding searchsorted_def using takeWhile_sorted_iff [OF assms _ that, of "\<lambda>x. x \<le> hi"]
    by simp
  have bound: "?b \<le> length xs"
    by (simp add: searchsorted_def length_takeWhile_le)
  show "set [?a..<?b] = set (in_range xs lo hi)"
  proof (rule set_eqI)
    fix i
    show "i \<in> set [?a..<?b] \<longleftrightarrow> i \<in> set (in_range xs lo hi)"
    proof (cases "i < length xs")
      case True
      from left [OF True] right [OF True] True show ?thesis
        by (auto simp: in_range_set)
    next
      case False
      with bound show ?thesis
        by (auto simp: in_range_set)
    qed
  qed
qed (simp_all add: in_range_sorted_distinct)

lemma slice_positions_sorted:
  "sorted xs \<Longrightarrow> slice_positions xs lo hi = Inr (in_range xs lo hi)"
  by (simp add: slice_positions_def get_slice_bound_def searchsorted_slice)

lemma sum_skipna_in_range:
  "sum_skipna p (in_range lats (lat_min b) (lat_max b)) (in_range lons (lon_min b) (lon_max b))
     = box_total lats lons b p"
  by (simp add: sum_skipna_def box_total_def)

lemma box_total_sum:
  "box_total lats lons b p =
     (\<Sum>i \<in> {i. i < length lats \<and> lat_min b \<le> lats ! i \<and> lats ! i \<le> lat_max b}.
        \<Sum>j \<in> {j. j < length lons \<and> lon_min b \<le> lons ! j \<and> lons ! j \<le> lon_max b}.
          nan_to_zero (p i j))"
  by (simp add: box_total_def sum_list_distinct_conv_sum_set in_range_sorted_distinct in_range_set)

text \<open>
  C3, as amended. For a variable whose \<^verbatim>\<open>lon\<close> and \<^verbatim>\<open>lat\<close> coordinates are in
  ascending order, the selection keeps exactly the positions whose longitude lies in
  \<open>[lon_min, lon_max]\<close> and whose latitude lies in \<open>[lat_min, lat_max]\<close>, both ends
  included, and the reduction is the sum of the kept cells, a missing value counting as
  zero; when no cell is kept the sum is 0 and no error is raised.
\<close>

theorem spatial_sum_ascending:
  "lon_coord d = Some lons \<and> lat_coord d = Some lats \<and> sorted lons \<and> sorted lats \<longrightarrow>
     sel_box d b = Inr (in_range lats (lat_min b) (lat_max b), in_range lons (lon_min b) (lon_max b))
     \<and> set (in_range lats (lat_min b) (lat_max b))
         = {i. i < length lats \<and> lat_min b \<le> lats ! i \<and> lats ! i \<le> lat_max b}
     \<and> set (in_range lons (lon_min b) (lon_max b))
         = {j. j < length lons \<and> lon_min b \<le> lons ! j \<and> lons ! j \<le> lon_max b}
     \<and> spatial_sum d b =
         Inr (case var_values d of
                NoTime p \<Rightarrow> Scalar (box_total lats lons b p)
              | WithTime tps \<Rightarrow> OverTime (map (\<lambda>tp. (fst tp, box_total lats lons b (snd tp))) tps))
     \<and> box_total lats lons b p =
         (\<Sum>i \<in> {i. i < length lats \<and> lat_min b \<le> lats ! i \<and> lats ! i \<le> lat_max b}.
            \<Sum>j \<in> {j. j < length lons \<and> lon_min b \<le> lons ! j \<and> lons ! j \<le> lon_max b}.
              nan_to_zero (p i j))
     \<and> (in_range lats (lat_min b) (lat_max b) = [] \<or> in_range lons (lon_min b) (lon_max b) = []
          \<longrightarrow> box_total lats lons b p = 0)"
proof (intro impI, elim conjE)
  assume coords: "lon_coord d = Some lons" "lat_coord d = Some lats"
    and asc: "sorted lons" "sorted lats"
  have sel: "sel_box d b
      = Inr (in_range lats (lat_min b) (lat_max b), in_range lons (lon_min b) (lon_max b))"
    using coords asc by (simp add: sel_box_def slice_positions_sorted)
  have total: "spatial_sum d b =
         Inr (case var_values d of
                NoTime p \<Rightarrow> Scalar (box_total lats lons b p)
              | WithTime tps \<Rightarrow> OverTime (map (\<lambda>tp. (fst tp, box_total lats lons b (snd tp))) tps))"
    by (simp add: spatial_sum_def sel sum_skipna_in_range split: var_values.splits)
  have empty: "box_total lats lons b p = 0"
    if "in_range lats (lat_min b) (lat_max b) = [] \<or> in_range lons (lon_min b) (lon_max b) = []"
    using that by (auto simp: box_total_def)
  show "sel_box d b = Inr (in_range lats (lat_min b) (lat_max b), in_range lons (lon_min b) (lon_max b))
     \<and> set (in_range lats (lat_min b) (lat_max b))
         = {i. i < length lats \<and> lat_min b \<le> lats ! i \<and> lats ! i \<le> lat_max b}
     \<and> set (in_range lons (lon_min b) (lon_max b))
         = {j. j < length lons \<and> lon_min b \<le> lons ! j \<and> lons ! j \<le> lon_max b}
     \<and> spatial_sum d b =
         Inr (case var_values d of
                NoTime p \<Rightarrow> Scalar (box_total lats lons b p)
              | WithTime tps \<Rightarrow> OverTime (map (\<lambda>tp. (fst tp, box_total lats lons b (snd tp))) tps))
     \<and> box_total lats lons b p =
         (\<Sum>i \<in> {i. i < length lats \<and> lat_min b \<le> lats ! i \<and> lats ! i \<le> lat_max b}.
            \<Sum>j \<in> {j. j < length lons \<and> lon_min b \<le> lons ! j \<and> lons ! j \<le> lon_max b}.
              nan_to_zero (p i j))
     \<and> (in_range lats (lat_min b) (lat_max b) = [] \<or> in_range lons (lon_min b) (lon_max b) = []
          \<longrightarrow> box_total lats lons b p = 0)"
    using sel total empty in_range_set box_total_sum by blast
qed

theorem spatial_sum_ascending_witness:
  "spatial_sum grid_2x2 unit_box = Inr (Scalar 6)
   \<and> spatial_sum grid_2x2 \<lparr>lon_min = 5, lat_min = 5, lon_max = 6, lat_max = 6\<rparr> = Inr (Scalar 0)"
proof -
  have coords: "lon_coord grid_2x2 = Some [0, 1] \<and> lat_coord grid_2x2 = Some [0, 1]
      \<and> sorted [0, 1 :: real] \<and> sorted [0, 1 :: real]"
    by (simp add: grid_2x2_def)
  have inside: "box_total [0, 1] [0, 1] unit_box (plane_of_rows [[Some 1, None], [Some 2, Some 3]]) = 6"
    by code_simp
  have outside: "box_total [0, 1] [0, 1] \<lparr>lon_min = 5, lat_min = 5, lon_max = 6, lat_max = 6\<rparr>
      (plane_of_rows [[Some 1, None], [Some 2, Some 3]]) = 0"
    by code_simp
  have vals: "var_values grid_2x2 = NoTime (plane_of_rows [[Some 1, None], [Some 2, Some 3]])"
    by (simp add: grid_2x2_def)
  from spatial_sum_ascending [of grid_2x2 "[0, 1]" "[0, 1]" unit_box] coords
  have one: "spatial_sum grid_2x2 unit_box =
         Inr (case var_values grid_2x2 of
                NoTime p \<Rightarrow> Scalar (box_total [0, 1] [0, 1] unit_box p)
              | WithTime tps \<Rightarrow>
                  OverTime (map (\<lambda>tp. (fst tp, box_total [0, 1] [0, 1] unit_box (snd tp))) tps))"
    by blast
  from spatial_sum_ascending [of grid_2x2 "[0, 1]" "[0, 1]"
      "\<lparr>lon_min = 5, lat_min = 5, lon_max = 6, lat_max = 6\<rparr>"] coords
  have two: "spatial_sum grid_2x2 \<lparr>lon_min = 5, lat_min = 5, lon_max = 6, lat_max = 6\<rparr> =
         Inr (case var_values grid_2x2 of
                NoTime p \<Rightarrow> Scalar (box_total [0, 1] [0, 1]
                                      \<lparr>lon_min = 5, lat_min = 5, lon_max = 6, lat_max = 6\<rparr> p)
              | WithTime tps \<Rightarrow>
                  OverTime (map (\<lambda>tp. (fst tp, box_total [0, 1] [0, 1]
                                      \<lparr>lon_min = 5, lat_min = 5, lon_max = 6, lat_max = 6\<rparr> (snd tp))) tps))"
    by blast
  show ?thesis
    by (simp add: one two vals inside outside)
qed

text \<open>
  C3 as stated fails on a grid whose latitudes run from north to south: the cell at
  latitude 0 lies in the box, the labelled sum of the box is 1, and the selection keeps
  nothing, so that the reduction returns 0.
\<close>

theorem north_south_counterexample:
  "lat_coord grid_north_south = Some [10, 0, - 10]
   \<and> lon_coord grid_north_south = Some [0]
   \<and> var_values grid_north_south = NoTime (plane_of_rows [[Some 1], [Some 1], [Some 1]])
   \<and> box_total [10, 0, - 10] [0] tropics_box (plane_of_rows [[Some 1], [Some 1], [Some 1]]) = 1
   \<and> spatial_sum grid_north_south tropics_box = Inr (Scalar 0)
   \<and> process_source example_files ''emi'' (tropics_box, []) ''in/north_2018_a.nc''
       = Inr (tropics_box, [\<lparr>date = ''2018'', val = 0\<rparr>])"
proof -
  have "lat_coord grid_north_south = Some [10, 0, - 10]"
    "lon_coord grid_north_south = Some [0]"
    "var_values grid_north_south = NoTime (plane_of_rows [[Some 1], [Some 1], [Some 1]])"
    by (simp_all add: grid_north_south_def)
  moreover have "box_total [10, 0, - 10] [0] tropics_box
      (plane_of_rows [[Some 1], [Some 1], [Some 1]]) = 1"
    by code_simp
  moreover have "spatial_sum grid_north_south tropics_box = Inr (Scalar 0)"
    by code_simp
  moreover have "process_source example_files ''emi'' (tropics_box, []) ''in/north_2018_a.nc''
       = Inr (tropics_box, [\<lparr>date = ''2018'', val = 0\<rparr>])"
    by code_simp
  ultimately show ?thesis by simp
qed

subsection \<open>Temporal labelling\<close>




















subsection \<open>The merge of the sources\<close>

lemma label_times_append:
  "label_times tvs ts series =
     (case label_times tvs ts [] of Inl e \<Rightarrow> Inl e | Inr pts \<Rightarrow> Inr (series @ pts))"
proof (induction ts arbitrary: series)
  case Nil
  then show ?case by simp
next
  case (Cons t ts)
  show ?case
  proof (cases "sel_time tvs t")
    case (Inl e)
    then show ?thesis by simp
  next
    case (Inr v)
    let ?pt = "\<lparr>date = year_label t, val = v\<rparr>"
    have a: "label_times tvs ts (series @ [?pt]) =
        (case label_times tvs ts [] of Inl e \<Rightarrow> Inl e | Inr pts \<Rightarrow> Inr ((series @ [?pt]) @ pts))"
      by (rule Cons.IH)
    have b: "label_times tvs ts ([] @ [?pt]) =
        (case label_times tvs ts [] of Inl e \<Rightarrow> Inl e | Inr pts \<Rightarrow> Inr (([] @ [?pt]) @ pts))"
      by (rule Cons.IH)
    show ?thesis
      unfolding label_times.simps Inr sum.case a b by (simp split: sum.splits)
  qed
qed

lemma label_summed_append:
  "label_summed sm series p =
     (case label_summed sm [] p of Inl e \<Rightarrow> Inl e | Inr pts \<Rightarrow> Inr (series @ pts))"
proof (cases sm)
  case (Scalar v)
  then show ?thesis
    by (simp add: label_summed_def split: option.splits)
next
  case (OverTime tvs)
  then show ?thesis
    using label_times_append [of tvs "map fst tvs" series] by (simp add: label_summed_def)
qed

lemma process_source_append:
  "process_source fs var (b, s) p = Inr (b', s') \<Longrightarrow>
   \<exists>pts. s' = s @ pts \<and> process_source fs var (b, []) p = Inr (b', pts)"
proof -
  assume "process_source fs var (b, s) p = Inr (b', s')"
  then obtain ds data sm where src: "fs p = Some ds" "ds var = Some data"
      "normalize_lon (lon_coord data) b = Inr b'" "spatial_sum data b' = Inr sm"
    and lab: "label_summed sm s p = Inr s'"
    by (auto simp: process_source_def split: option.splits sum.splits)
  from lab label_summed_append [of sm s p]
  obtain pts where pts: "label_summed sm [] p = Inr pts" "s' = s @ pts"
    by (auto split: sum.splits)
  with src have "process_source fs var (b, []) p = Inr (b', pts)"
    by (simp add: process_source_def)
  with pts show ?thesis by blast
qed

lemma run_sources_concat:
  "run_sources fs var (b, s) ps = Inr (b', s') \<Longrightarrow>
   \<exists>ptss. s' = s @ concat ptss
      \<and> list_all2 (\<lambda>p pts. \<exists>c c'. process_source fs var (c, []) p = Inr (c', pts)) ps ptss"
proof (induction ps arbitrary: b s)
  case Nil
  then have "s' = s @ concat []" by simp
  then show ?case by (intro exI [of _ "[]"]) simp
next
  case (Cons p ps)
  then obtain b1 s1 where step: "process_source fs var (b, s) p = Inr (b1, s1)"
    and rest: "run_sources fs var (b1, s1) ps = Inr (b', s')"
    by (auto split: sum.splits)
  from process_source_append [OF step]
  obtain pts where pts: "s1 = s @ pts" "process_source fs var (b, []) p = Inr (b1, pts)"
    by blast
  from Cons.IH [OF rest]
  obtain ptss where ptss: "s' = s1 @ concat ptss"
    "list_all2 (\<lambda>p pts. \<exists>c c'. process_source fs var (c, []) p = Inr (c', pts)) ps ptss"
    by blast
  from pts ptss have "s' = s @ concat (pts # ptss)"
    by simp
  moreover from pts ptss
  have "list_all2 (\<lambda>p pts. \<exists>c c'. process_source fs var (c, []) p = Inr (c', pts))
          (p # ps) (pts # ptss)"
    by auto
  ultimately show ?case by blast
qed

lemma main_success:
  "main pyfloat a w = (None, w') \<Longrightarrow>
   \<exists>x1 x2 x3 x4 b series.
      parse_bbox pyfloat (arg_bbox a) = Inr [x1, x2, x3, x4]
      \<and> run_sources (datasets w) (arg_var a)
           (\<lparr>lon_min = x1, lat_min = x2, lon_max = x3, lat_max = x4\<rparr>, [])
           (split_on CHR '','' (arg_input a)) = Inr (b, series)
      \<and> w' = w\<lparr>written := (written w)(arg_output a \<mapsto> sort_key date series)\<rparr>"
  by (auto simp: main_def split: sum.splits list.splits)

lemma main_failure: "main pyfloat a w = (Some e, w') \<Longrightarrow> w' = w"
  by (auto simp: main_def split: sum.splits list.splits)

text \<open>
  C7. The output of a successful run. The series of the run is the concatenation of
  what the passes over the sources append, in the order of the input list, and the
  series written to the output path is that series sorted by \<open>date\<close>, compared as
  strings in lexicographic order of the character codes: the output is in ascending
  order, it has the same points with the same multiplicities, and the points of one
  period keep their relative order.
\<close>

lemma string_le_lexord:
  "(s :: string) \<le> t \<longleftrightarrow> s = t \<or> (s, t) \<in> lexord {(c, d). (of_char c :: nat) < of_char d}"
proof -
  have "{(c :: char, d). c < d} = {(c, d). (of_char c :: nat) < of_char d}"
    by (simp add: less_char_def)
  then show ?thesis
    by (auto simp: list_le_def list_less_def)
qed

lemma sorted_by_date_lexord:
  "sorted_wrt (\<lambda>p q. date p = date q
                 \<or> (date p, date q) \<in> lexord {(c, d). (of_char c :: nat) < of_char d})
     (sort_key date series)"
proof -
  have "sorted (map date (sort_key date series))"
    by simp
  then have "sorted_wrt (\<lambda>p q. date p \<le> date q) (sort_key date series)"
    by (simp only: sorted_map)
  then show ?thesis
    by (simp only: string_le_lexord)
qed

theorem merge_sorted_by_period:
  "main pyfloat a w = (None, w') \<longrightarrow>
     (\<exists>x1 x2 x3 x4 b series ptss.
        parse_bbox pyfloat (arg_bbox a) = Inr [x1, x2, x3, x4]
        \<and> run_sources (datasets w) (arg_var a)
             (\<lparr>lon_min = x1, lat_min = x2, lon_max = x3, lat_max = x4\<rparr>, [])
             (split_on CHR '','' (arg_input a)) = Inr (b, series)
        \<and> series = concat ptss
        \<and> list_all2 (\<lambda>p pts. \<exists>c c'. process_source (datasets w) (arg_var a) (c, []) p = Inr (c', pts))
             (split_on CHR '','' (arg_input a)) ptss
        \<and> written w' (arg_output a) = Some (sort_key date series)
        \<and> sorted (map date (sort_key date series))
        \<and> sorted_wrt (\<lambda>p q. date p = date q
                 \<or> (date p, date q) \<in> lexord {(c, d). (of_char c :: nat) < of_char d})
             (sort_key date series)
        \<and> mset (sort_key date series) = mset series
        \<and> (\<forall>k. filter (\<lambda>pt. date pt = k) (sort_key date series)
                 = filter (\<lambda>pt. date pt = k) series))"
proof
  assume "main pyfloat a w = (None, w')"
  from main_success [OF this]
  obtain x1 x2 x3 x4 b series where parsed: "parse_bbox pyfloat (arg_bbox a) = Inr [x1, x2, x3, x4]"
    and run: "run_sources (datasets w) (arg_var a)
           (\<lparr>lon_min = x1, lat_min = x2, lon_max = x3, lat_max = x4\<rparr>, [])
           (split_on CHR '','' (arg_input a)) = Inr (b, series)"
    and w': "w' = w\<lparr>written := (written w)(arg_output a \<mapsto> sort_key date series)\<rparr>"
    by blast
  from run_sources_concat [OF run]
  obtain ptss where ptss: "series = concat ptss"
    "list_all2 (\<lambda>p pts. \<exists>c c'. process_source (datasets w) (arg_var a) (c, []) p = Inr (c', pts))
       (split_on CHR '','' (arg_input a)) ptss"
    by auto
  have out: "written w' (arg_output a) = Some (sort_key date series)"
    by (simp add: w')
  have stable: "\<forall>k. filter (\<lambda>pt. date pt = k) (sort_key date series)
                 = filter (\<lambda>pt. date pt = k) series"
    by (simp add: sort_key_stable)
  have "sorted (map date (sort_key date series))" "mset (sort_key date series) = mset series"
    by simp_all
  with parsed run ptss out stable sorted_by_date_lexord [of series] show "\<exists>x1 x2 x3 x4 b series ptss.
        parse_bbox pyfloat (arg_bbox a) = Inr [x1, x2, x3, x4]
        \<and> run_sources (datasets w) (arg_var a)
             (\<lparr>lon_min = x1, lat_min = x2, lon_max = x3, lat_max = x4\<rparr>, [])
             (split_on CHR '','' (arg_input a)) = Inr (b, series)
        \<and> series = concat ptss
        \<and> list_all2 (\<lambda>p pts. \<exists>c c'. process_source (datasets w) (arg_var a) (c, []) p = Inr (c', pts))
             (split_on CHR '','' (arg_input a)) ptss
        \<and> written w' (arg_output a) = Some (sort_key date series)
        \<and> sorted (map date (sort_key date series))
        \<and> sorted_wrt (\<lambda>p q. date p = date q
                 \<or> (date p, date q) \<in> lexord {(c, d). (of_char c :: nat) < of_char d})
             (sort_key date series)
        \<and> mset (sort_key date series) = mset series
        \<and> (\<forall>k. filter (\<lambda>pt. date pt = k) (sort_key date series)
                 = filter (\<lambda>pt. date pt = k) series)"
    by blast
qed

theorem merge_sorted_by_period_witness:
  "fst (main decimal_literal merge_args example_world) = None
   \<and> run_sources example_files ''emi'' (unit_box, [])
        [''in/data_emissions_2021_v2.nc'', ''in/edgar_2019_a.nc'']
       = Inr (unit_box, [\<lparr>date = ''2021'', val = 6\<rparr>, \<lparr>date = ''2019'', val = 6\<rparr>])
   \<and> written (snd (main decimal_literal merge_args example_world)) ''out/series.json''
       = Some [\<lparr>date = ''2019'', val = 6\<rparr>, \<lparr>date = ''2021'', val = 6\<rparr>]
   \<and> sort_key date [\<lparr>date = ''9'', val = 1\<rparr>, \<lparr>date = ''10'', val = 2\<rparr>, \<lparr>date = ''9'', val = 3\<rparr>]
       = [\<lparr>date = ''10'', val = 2\<rparr>, \<lparr>date = ''9'', val = 1\<rparr>, \<lparr>date = ''9'', val = 3\<rparr>]"
proof -
  have ok: "fst (main decimal_literal merge_args example_world) = None"
    by code_simp
  then have "main decimal_literal merge_args example_world
      = (None, snd (main decimal_literal merge_args example_world))"
    by (simp add: prod_eq_iff)
  from merge_sorted_by_period [of decimal_literal merge_args example_world
      "snd (main decimal_literal merge_args example_world)"] this
  obtain x1 x2 x3 x4 b series where
    parsed: "parse_bbox decimal_literal (arg_bbox merge_args) = Inr [x1, x2, x3, x4]"
    and run: "run_sources (datasets example_world) (arg_var merge_args)
             (\<lparr>lon_min = x1, lat_min = x2, lon_max = x3, lat_max = x4\<rparr>, [])
             (split_on CHR '','' (arg_input merge_args)) = Inr (b, series)"
    and out: "written (snd (main decimal_literal merge_args example_world)) (arg_output merge_args)
       = Some (sort_key date series)"
    by blast
  have "parse_bbox decimal_literal (arg_bbox merge_args) = Inr [0, 0, 1, 1]"
    by code_simp
  with parsed have box: "x1 = 0" "x2 = 0" "x3 = 1" "x4 = 1"
    by simp_all
  have paths: "split_on CHR '','' (arg_input merge_args)
      = [''in/data_emissions_2021_v2.nc'', ''in/edgar_2019_a.nc'']"
    by code_simp
  have known: "run_sources example_files ''emi'' (unit_box, [])
        [''in/data_emissions_2021_v2.nc'', ''in/edgar_2019_a.nc'']
       = Inr (unit_box, [\<lparr>date = ''2021'', val = 6\<rparr>, \<lparr>date = ''2019'', val = 6\<rparr>])"
    by code_simp
  from run have "series = [\<lparr>date = ''2021'', val = 6\<rparr>, \<lparr>date = ''2019'', val = 6\<rparr>]"
    using known by (simp add: box paths example_world_def merge_args_def unit_box_def)
  moreover have "sort_key date [\<lparr>date = ''2021'', val = 6 :: real\<rparr>, \<lparr>date = ''2019'', val = 6\<rparr>]
      = [\<lparr>date = ''2019'', val = 6\<rparr>, \<lparr>date = ''2021'', val = 6\<rparr>]"
    by code_simp
  moreover have "sort_key date [\<lparr>date = ''9'', val = 1 :: real\<rparr>, \<lparr>date = ''10'', val = 2\<rparr>, \<lparr>date = ''9'', val = 3\<rparr>]
       = [\<lparr>date = ''10'', val = 2\<rparr>, \<lparr>date = ''9'', val = 1\<rparr>, \<lparr>date = ''9'', val = 3\<rparr>]"
    by code_simp
  ultimately show ?thesis
    using ok known out by (simp add: merge_args_def)
qed

subsection \<open>Errors end the run\<close>

lemma process_source_absent:
  "fs p = Some ds \<Longrightarrow> ds var = None \<Longrightarrow> process_source fs var st p = Inl VariableNotFound"
  by (simp add: process_source_def)

lemma run_sources_absent:
  "p \<in> set ps \<Longrightarrow> fs p = Some ds \<Longrightarrow> ds var = None \<Longrightarrow> \<exists>e. run_sources fs var st ps = Inl e"
proof (induction ps arbitrary: st)
  case Nil
  then show ?case by simp
next
  case (Cons q ps)
  show ?case
  proof (cases "process_source fs var st q")
    case (Inl e)
    then show ?thesis by simp
  next
    case (Inr st')
    with Cons.prems have "q \<noteq> p"
      by (auto simp: process_source_absent)
    with Cons.prems have "p \<in> set ps" by simp
    from Cons.IH [OF this Cons.prems(2,3)] Inr show ?thesis by simp
  qed
qed

text \<open>
  C8, as amended. A run that ends in an error writes nothing. A run whose input list
  names a dataset without the requested variable ends in an error. The error is
  \<open>VariableNotFound\<close>, raised at the first such source whatever the sources after it,
  when the bounding box parses and every source before it is processed without
  error.
\<close>

theorem absent_variable_aborts:
  "(main pyfloat a w = (Some e, w') \<longrightarrow> w' = w)
   \<and> (p \<in> set (split_on CHR '','' (arg_input a)) \<and> datasets w p = Some ds \<and> ds (arg_var a) = None
      \<longrightarrow> (\<exists>e'. main pyfloat a w = (Some e', w)))
   \<and> (parse_bbox pyfloat (arg_bbox a) = Inr [x1, x2, x3, x4]
        \<and> split_on CHR '','' (arg_input a) = pre @ p # post
        \<and> run_sources (datasets w) (arg_var a)
             (\<lparr>lon_min = x1, lat_min = x2, lon_max = x3, lat_max = x4\<rparr>, []) pre = Inr st
        \<and> datasets w p = Some ds \<and> ds (arg_var a) = None
      \<longrightarrow> main pyfloat a w = (Some VariableNotFound, w))"
proof -
  have unchanged: "w' = w" if "main pyfloat a w = (Some e, w')"
    using that by (rule main_failure)
  have fails: "\<exists>e'. main pyfloat a w = (Some e', w)"
    if mem: "p \<in> set (split_on CHR '','' (arg_input a))"
      and ds: "datasets w p = Some ds" "ds (arg_var a) = None"
  proof (cases "fst (main pyfloat a w)")
    case None
    then have "main pyfloat a w = (None, snd (main pyfloat a w))"
      by (simp add: prod_eq_iff)
    from main_success [OF this] obtain x1 x2 x3 x4 b series where
      "run_sources (datasets w) (arg_var a)
           (\<lparr>lon_min = x1, lat_min = x2, lon_max = x3, lat_max = x4\<rparr>, [])
           (split_on CHR '','' (arg_input a)) = Inr (b, series)"
      by blast
    with run_sources_absent [of p _ "datasets w" ds "arg_var a", OF mem ds] show ?thesis
      by (metis Inl_Inr_False)
  next
    case (Some e')
    then have m: "main pyfloat a w = (Some e', snd (main pyfloat a w))"
      by (simp add: prod_eq_iff)
    from main_failure [OF this] m show ?thesis
      by auto
  qed
  have first: "main pyfloat a w = (Some VariableNotFound, w)"
    if "parse_bbox pyfloat (arg_bbox a) = Inr [x1, x2, x3, x4]"
      and "split_on CHR '','' (arg_input a) = pre @ p # post"
      and "run_sources (datasets w) (arg_var a)
             (\<lparr>lon_min = x1, lat_min = x2, lon_max = x3, lat_max = x4\<rparr>, []) pre = Inr st"
      and "datasets w p = Some ds" "ds (arg_var a) = None"
    using that by (simp add: main_parsed run_sources_append process_source_absent)
  show ?thesis
    using unchanged fails first by blast
qed

theorem absent_variable_aborts_witness:
  "main decimal_literal absent_var_args example_world = (Some VariableNotFound, example_world)
   \<and> written (snd (main decimal_literal absent_var_args example_world)) ''out/series.json'' = None"
proof -
  have parsed: "parse_bbox decimal_literal (arg_bbox absent_var_args) = Inr [0, 0, 1, 1]"
    by code_simp
  have paths: "split_on CHR '','' (arg_input absent_var_args)
      = [''in/data_emissions_2021_v2.nc''] @ ''in/other_2022_a.nc'' # [''in/edgar_2019_a.nc'']"
    by code_simp
  have before: "run_sources (datasets example_world) (arg_var absent_var_args)
      (\<lparr>lon_min = 0, lat_min = 0, lon_max = 1, lat_max = 1\<rparr>, []) [''in/data_emissions_2021_v2.nc'']
      = Inr (unit_box, [\<lparr>date = ''2021'', val = 6\<rparr>])"
    by code_simp
  have absent: "datasets example_world ''in/other_2022_a.nc'' = Some (single_var ''ch4'' grid_2x2)"
    "single_var ''ch4'' grid_2x2 (arg_var absent_var_args) = None"
    by (simp_all add: example_world_def example_files_def single_var_def absent_var_args_def)
  from absent_variable_aborts [of decimal_literal absent_var_args example_world VariableNotFound
      example_world "''in/other_2022_a.nc''" "single_var ''ch4'' grid_2x2" 0 0 1 1
      "[''in/data_emissions_2021_v2.nc'']" "[''in/edgar_2019_a.nc'']"
      "(unit_box, [\<lparr>date = ''2021'', val = 6\<rparr>])"] parsed paths before absent
  have "main decimal_literal absent_var_args example_world = (Some VariableNotFound, example_world)"
    by blast
  then show ?thesis
    by (simp add: example_world_def)
qed

text \<open>
  C8 as stated fails when an earlier source ends the run: the second dataset lacks the
  variable, and the run fails with \<open>MissingYear\<close> at the first source.
\<close>

theorem earlier_error_counterexample:
  "split_on CHR '','' (arg_input no_year_first_args) = [''in/data_v2.nc'', ''in/other_2022_a.nc'']
   \<and> datasets example_world ''in/other_2022_a.nc'' = Some (single_var ''ch4'' grid_2x2)
   \<and> single_var ''ch4'' grid_2x2 (arg_var no_year_first_args) = None
   \<and> fst (main decimal_literal no_year_first_args example_world) = Some MissingYear"
proof -
  have "split_on CHR '','' (arg_input no_year_first_args) = [''in/data_v2.nc'', ''in/other_2022_a.nc'']"
    by code_simp
  moreover have "datasets example_world ''in/other_2022_a.nc'' = Some (single_var ''ch4'' grid_2x2)"
    "single_var ''ch4'' grid_2x2 (arg_var no_year_first_args) = None"
    by (simp_all add: example_world_def example_files_def single_var_def no_year_first_args_def)
  moreover have "fst (main decimal_literal no_year_first_args example_world) = Some MissingYear"
    by code_simp
  ultimately show ?thesis by simp
qed

end
